theory Spec2Isabelle
  imports Complex_Main
begin

section \<open>StreamVLM: the streaming front end\<close>

text \<open>
  A shallow embedding of the TypeScript sources of the StreamVLM client: the zustand
  store (\<open>useAppStore\<close>), the \<open>WebSocketService\<close> transport, the fetch-style
  \<open>ApiService\<close>, the \<open>App\<close> component's handlers and streaming effect, and the
  camera hook's \<open>captureFrame\<close>.

  JavaScript numbers are modelled as rationals (no claim below depends on rounding),
  strings as \<open>string\<close>, \<open>T | null\<close> and optional fields as \<open>T option\<close>.
  Console output is not part of the model.
\<close>

type_synonym number = rat

subsection \<open>Types of the store\<close>

text \<open>
  The interfaces of \<open>types\<close> that the store and the services use, field by field.
  Field names are global here, so a field whose name an earlier record has taken carries
  a prefix: \<open>frame_prompt\<close> is \<open>FrameData.prompt\<close>, \<open>q_temperature\<close> is
  \<open>VLMSettings.temperature\<close>, \<open>vm_id\<close> and \<open>vm_max_tokens\<close> are
  \<open>VLMModel.id\<close> and \<open>VLMModel.max_tokens\<close>. An optional field is an \<open>option\<close>.
\<close>

record AppSettings =
  selectedModel :: string
  summaryModel :: string
  prompt :: string
  maxTokens :: number
  temperature :: number
  delaySeconds :: number
  useTemporalContext :: bool
  autoStart :: bool
  contextWindow :: number
  summaryWindow :: number

record CameraSettings =
  deviceId :: "string option"
  width :: number
  height :: number
  frameRate :: number

record TemporalContext =
  recent_responses :: "string list"
  last_update :: string

record VLMSettings =
  max_tokens :: number
  q_temperature :: number
  delay_seconds :: number

record VLMModel =
  vm_id :: string
  name :: string
  provider :: string
  description :: string
  vm_max_tokens :: number
  supports_images :: bool
  supports_text :: bool

record SessionStats =
  session_id :: string
  total_frames :: number
  session_duration :: number
  frames_per_minute :: number
  models_used :: "string list"
  avg_processing_time :: number

record FrameData =
  timestamp :: string
  frame_id :: string
  response :: string
  model :: string
  processing_time :: number
  frame_prompt :: string
  detected_objects :: "string list option"
  temporal_context :: "TemporalContext option"

subsection \<open>The store (\<open>useAppStore\<close>)\<close>

record AppState =
  settings :: AppSettings
  cameraSettings :: CameraSettings
  availableModels :: "VLMModel list"
  currentSession :: "string option"
  frameHistory :: "FrameData list"
  sessionStats :: "SessionStats option"
  temporalContext :: "TemporalContext option"
  currentResponse :: "string option"
  detectedObjects :: "string list"
  generalSummary :: "string option"
  isConnected :: bool
  isProcessing :: bool
  isStreaming :: bool
  error :: "string option"

definition defaultSettings :: AppSettings where
  "defaultSettings =
     \<lparr> selectedModel = ''gemini-1.5-flash'',
       summaryModel = ''gemini-2.0-flash'',
       prompt = ''What do you see in this image?'',
       maxTokens = 300,
       temperature = 7 / 10,
       delaySeconds = 2,
       useTemporalContext = True,
       autoStart = False,
       contextWindow = 10,
       summaryWindow = 10 \<rparr>"

definition defaultCameraSettings :: CameraSettings where
  "defaultCameraSettings = \<lparr> deviceId = None, width = 640, height = 480, frameRate = 30 \<rparr>"

definition initialState :: AppState where
  "initialState =
     \<lparr> settings = defaultSettings,
       cameraSettings = defaultCameraSettings,
       availableModels = [],
       currentSession = None,
       frameHistory = [],
       sessionStats = None,
       temporalContext = None,
       currentResponse = None,
       detectedObjects = [],
       generalSummary = None,
       isConnected = False,
       isProcessing = False,
       isStreaming = False,
       error = None \<rparr>"

text \<open>
  \<open>Array.prototype.slice(-k)\<close>: the start index is \<open>max (length - k) 0\<close>, the
  result runs from there to the end.
\<close>

definition slice_last :: "nat \<Rightarrow> 'a list \<Rightarrow> 'a list" where
  "slice_last k xs =
     (let start = (if length xs < k then 0 else length xs - k) in drop start xs)"

definition setCurrentSession :: "string option \<Rightarrow> AppState \<Rightarrow> AppState" where
  "setCurrentSession sessionId st = st\<lparr>currentSession := sessionId\<rparr>"

definition addFrame :: "FrameData \<Rightarrow> AppState \<Rightarrow> AppState" where
  "addFrame frame st = st\<lparr>frameHistory := slice_last 50 (frameHistory st @ [frame])\<rparr>"

definition clearFrameHistory :: "AppState \<Rightarrow> AppState" where
  "clearFrameHistory st = st\<lparr>frameHistory := []\<rparr>"

definition setSessionStats :: "SessionStats option \<Rightarrow> AppState \<Rightarrow> AppState" where
  "setSessionStats stats st = st\<lparr>sessionStats := stats\<rparr>"

definition setTemporalContext :: "TemporalContext option \<Rightarrow> AppState \<Rightarrow> AppState" where
  "setTemporalContext context st = st\<lparr>temporalContext := context\<rparr>"

definition setConnectionStatus :: "bool \<Rightarrow> AppState \<Rightarrow> AppState" where
  "setConnectionStatus conn st = st\<lparr>isConnected := conn\<rparr>"

definition setProcessingStatus :: "bool \<Rightarrow> AppState \<Rightarrow> AppState" where
  "setProcessingStatus processing st = st\<lparr>isProcessing := processing\<rparr>"

definition setStreamingStatus :: "bool \<Rightarrow> AppState \<Rightarrow> AppState" where
  "setStreamingStatus streaming st = st\<lparr>isStreaming := streaming\<rparr>"

definition setError :: "string option \<Rightarrow> AppState \<Rightarrow> AppState" where
  "setError e st = st\<lparr>error := e\<rparr>"

text \<open>A sequence of \<open>addFrame\<close> calls, in call order.\<close>

fun addFrames :: "FrameData list \<Rightarrow> AppState \<Rightarrow> AppState" where
  "addFrames [] st = st"
| "addFrames (f # fs) st = addFrames fs (addFrame f st)"

subsection \<open>The fetch surface (\<open>ApiService\<close>)\<close>

text \<open>
  A parsed JSON value, with \<open>undefined\<close> for what a property read on a missing key
  yields. An object is its key/value pairs in source order; a later duplicate key wins.
\<close>

datatype jsval =
    JUndefined
  | JNull
  | JBool bool
  | JNum number
  | JStr string
  | JArr "jsval list"
  | JObj "(string \<times> jsval) list"

datatype js_error =
    Error string       \<comment> \<open>\<open>new Error(message)\<close>\<close>
  | FetchRejected      \<comment> \<open>the promise of \<open>fetch\<close> rejects: transport failure\<close>
  | JsonRejected       \<comment> \<open>\<open>response.json()\<close> rejects: the body is not JSON\<close>
  | TypeError          \<comment> \<open>a property read on \<open>null\<close>\<close>

record http_response =
  ok :: bool                    \<comment> \<open>status in 200..299\<close>
  json :: "jsval option"        \<comment> \<open>\<open>None\<close>: \<open>response.json()\<close> rejects\<close>

datatype fetch_outcome = Rejects | Responds http_response

fun truthy :: "jsval \<Rightarrow> bool" where
  "truthy JUndefined = False"
| "truthy JNull = False"
| "truthy (JBool b) = b"
| "truthy (JNum n) = (n \<noteq> 0)"
| "truthy (JStr s) = (s \<noteq> [])"
| "truthy (JArr _) = True"
| "truthy (JObj _) = True"

text \<open>
  \<open>data.key\<close> for the keys the service reads (\<open>models\<close>, \<open>stats\<close>,
  \<open>context_window\<close>, none of them a built-in property): a \<open>TypeError\<close> on
  \<open>null\<close> and \<open>undefined\<close>, the member of an object, \<open>undefined\<close> otherwise.
\<close>

fun get_prop :: "jsval \<Rightarrow> string \<Rightarrow> js_error + jsval" where
  "get_prop JUndefined k = Inl TypeError"
| "get_prop JNull k = Inl TypeError"
| "get_prop (JObj kvs) k = (case map_of (rev kvs) k of None \<Rightarrow> Inr JUndefined | Some v \<Rightarrow> Inr v)"
| "get_prop _ k = Inr JUndefined"

definition bind_err :: "'e + 'a \<Rightarrow> ('a \<Rightarrow> 'e + 'b) \<Rightarrow> 'e + 'b" where
  "bind_err r f = (case r of Inl e \<Rightarrow> Inl e | Inr v \<Rightarrow> f v)"

text \<open>\<open>try { body } catch (e) { handler(e) }\<close>.\<close>

definition try_catch :: "'e + 'a \<Rightarrow> ('e \<Rightarrow> 'e + 'a) \<Rightarrow> 'e + 'a" where
  "try_catch body handler = (case body of Inl e \<Rightarrow> handler e | Inr v \<Rightarrow> Inr v)"

text \<open>\<open>await fetch(...)\<close> followed by \<open>if (!response.ok) throw new Error(msg)\<close>.\<close>

definition fetch_ok :: "fetch_outcome \<Rightarrow> string \<Rightarrow> js_error + http_response" where
  "fetch_ok f msg =
     (case f of
        Rejects \<Rightarrow> Inl FetchRejected
      | Responds r \<Rightarrow> if \<not> ok r then Inl (Error msg) else Inr r)"

definition response_json :: "http_response \<Rightarrow> js_error + jsval" where
  "response_json r = (case json r of None \<Rightarrow> Inl JsonRejected | Some data \<Rightarrow> Inr data)"

text \<open>
  Each method takes the outcome of its one \<open>fetch\<close> call. The request arguments only
  shape the request, so they are not parameters of the model.
\<close>

definition getModels :: "fetch_outcome \<Rightarrow> js_error + jsval" where
  "getModels f =
     try_catch
       (bind_err (fetch_ok f ''Failed to fetch models'') (\<lambda>r.
        bind_err (response_json r) (\<lambda>data.
        bind_err (get_prop data ''models'') (\<lambda>models.
        Inr (if truthy models then models else JArr [])))))
       Inl"

definition getSettings :: "fetch_outcome \<Rightarrow> js_error + jsval" where
  "getSettings f =
     try_catch
       (bind_err (fetch_ok f ''Failed to fetch settings'') response_json)
       Inl"

definition queryVLM :: "fetch_outcome \<Rightarrow> js_error + jsval" where
  "queryVLM f =
     try_catch
       (bind_err (fetch_ok f ''Failed to query VLM'') response_json)
       Inl"

definition queryVLMWithContext :: "fetch_outcome \<Rightarrow> js_error + jsval" where
  "queryVLMWithContext f =
     try_catch
       (bind_err (fetch_ok f ''Failed to query VLM with context'') response_json)
       Inl"

definition startSession :: "fetch_outcome \<Rightarrow> js_error + jsval" where
  "startSession f =
     try_catch
       (bind_err (fetch_ok f ''Failed to start session'') response_json)
       Inl"

definition getSessionStats :: "fetch_outcome \<Rightarrow> js_error + jsval" where
  "getSessionStats f =
     try_catch
       (bind_err (fetch_ok f ''Failed to get session stats'') (\<lambda>r.
        bind_err (response_json r) (\<lambda>data. get_prop data ''stats'')))
       Inl"

definition clearSession :: "fetch_outcome \<Rightarrow> js_error + jsval" where
  "clearSession f =
     try_catch
       (bind_err (fetch_ok f ''Failed to clear session'') (\<lambda>r. Inr JUndefined))
       Inl"

definition healthCheck :: "fetch_outcome \<Rightarrow> js_error + jsval" where
  "healthCheck f =
     try_catch
       (case f of Rejects \<Rightarrow> Inl FetchRejected | Responds r \<Rightarrow> Inr (JBool (ok r)))
       (\<lambda>e. Inr (JBool False))"

definition getContextWindow :: "fetch_outcome \<Rightarrow> js_error + jsval" where
  "getContextWindow f =
     try_catch
       (bind_err (fetch_ok f ''Failed to fetch context window'') (\<lambda>r.
        bind_err (response_json r) (\<lambda>data. get_prop data ''context_window'')))
       (\<lambda>e. Inr (JNum 10))"

definition updateContextWindow :: "fetch_outcome \<Rightarrow> js_error + jsval" where
  "updateContextWindow f =
     try_catch
       (bind_err (fetch_ok f ''Failed to update context window'') (\<lambda>r. Inr JUndefined))
       Inl"

definition updateSummaryWindow :: "fetch_outcome \<Rightarrow> js_error + jsval" where
  "updateSummaryWindow f =
     try_catch
       (bind_err (fetch_ok f ''Failed to update summary window'') (\<lambda>r. Inr JUndefined))
       Inl"

definition updateWindows :: "fetch_outcome \<Rightarrow> js_error + jsval" where
  "updateWindows f =
     try_catch
       (bind_err (fetch_ok f ''Failed to update windows'') (\<lambda>r. Inr JUndefined))
       Inl"

text \<open>The methods of the surface, and the call of one of them.\<close>

datatype api_method =
    GetModels | GetSettings | QueryVLM | QueryVLMWithContext
  | StartSession | GetSessionStats | ClearSession
  | HealthCheck | GetContextWindow
  | UpdateContextWindow | UpdateSummaryWindow | UpdateWindows

fun api_call :: "api_method \<Rightarrow> fetch_outcome \<Rightarrow> js_error + jsval" where
  "api_call GetModels f = getModels f"
| "api_call GetSettings f = getSettings f"
| "api_call QueryVLM f = queryVLM f"
| "api_call QueryVLMWithContext f = queryVLMWithContext f"
| "api_call StartSession f = startSession f"
| "api_call GetSessionStats f = getSessionStats f"
| "api_call ClearSession f = clearSession f"
| "api_call HealthCheck f = healthCheck f"
| "api_call GetContextWindow f = getContextWindow f"
| "api_call UpdateContextWindow f = updateContextWindow f"
| "api_call UpdateSummaryWindow f = updateSummaryWindow f"
| "api_call UpdateWindows f = updateWindows f"

text \<open>The HTTP response is non-2xx, or the transport fails.\<close>

definition request_failed :: "fetch_outcome \<Rightarrow> bool" where
  "request_failed f = (case f of Rejects \<Rightarrow> True | Responds r \<Rightarrow> \<not> ok r)"

subsection \<open>The camera hook (\<open>useCamera\<close>): \<open>captureFrame\<close>\<close>

text \<open>
  What \<open>captureFrame\<close> reads from the browser at one call: whether the two refs hold
  an element, the hook's \<open>isStreaming\<close> state, and what the canvas calls do. A call
  that throws is \<open>Inl\<close>. The writes to \<open>canvas.width\<close> and \<open>canvas.height\<close>
  cannot throw and do not reach the result.
\<close>

datatype dom_exception = DOMException string

record capture_env =
  videoRef_current :: bool                       \<comment> \<open>\<open>videoRef.current\<close> is not null\<close>
  canvasRef_current :: bool                      \<comment> \<open>\<open>canvasRef.current\<close> is not null\<close>
  cam_isStreaming :: bool
  getContext :: "dom_exception + bool"           \<comment> \<open>\<open>Inr False\<close>: \<open>getContext('2d')\<close> is null\<close>
  drawImage :: "dom_exception + unit"
  toDataURL :: "dom_exception + string"

text \<open>The value returned: a string, \<open>null\<close>, or \<open>undefined\<close> for a missing array index.\<close>

datatype capture_result = Null | Str string | Undefined

text \<open>\<open>s.split(c)\<close> for a one-character separator.\<close>

fun split_on :: "char \<Rightarrow> string \<Rightarrow> string list" where
  "split_on c [] = [[]]"
| "split_on c (x # xs) =
     (if x = c then [] # split_on c xs
      else (case split_on c xs of
              [] \<Rightarrow> [[x]]
            | w # ws \<Rightarrow> (x # w) # ws))"

definition index_str :: "string list \<Rightarrow> nat \<Rightarrow> capture_result" where
  "index_str parts i = (if i < length parts then Str (parts ! i) else Undefined)"

definition captureFrame :: "capture_env \<Rightarrow> dom_exception + capture_result" where
  "captureFrame env =
     (if \<not> videoRef_current env \<or> \<not> canvasRef_current env \<or> \<not> cam_isStreaming env
      then Inr Null
      else
        try_catch
          (bind_err (getContext env) (\<lambda>ctx.
             if \<not> ctx then Inr Null
             else
               bind_err (drawImage env) (\<lambda>_.
               bind_err (toDataURL env) (\<lambda>url.
               Inr (index_str (split_on CHR '','' url) 1)))))
          (\<lambda>err. Inr Null))"

subsection \<open>The transport (\<open>WebSocketService\<close>)\<close>

datatype readyState = CONNECTING | OPEN | CLOSING | CLOSED

datatype promise_state = Pending | Resolved | Rejected

text \<open>
  A browser socket made by \<open>connect\<close>. Its four handlers are those \<open>connect\<close>
  installs; \<open>resolver\<close> is the promise whose \<open>resolve\<close> and \<open>reject\<close> they
  captured.
\<close>

record WebSocket =
  readyState :: readyState
  resolver :: nat

text \<open>The callbacks given to the constructor, as the calls made to them.\<close>

datatype signal = OnConnect | OnDisconnect | OnError string

record vlm_query_params =
  q_model :: string
  image_b64 :: string
  q_prompt :: string
  q_session_id :: "string option"
  use_temporal_context :: bool
  q_settings :: VLMSettings
  q_timestamp :: string

text \<open>An outgoing message: the \<open>type\<close> field is the constructor.\<close>

datatype outbound =
    start_session "string option"
  | vlm_query vlm_query_params
  | get_session_stats "string option"
  | update_context_window number
  | get_summary "string option" "string option"
  | ping

text \<open>
  An incoming message after \<open>JSON.parse\<close> (\<open>WebSocketMessage\<close>: a \<open>type\<close>
  and any other keys): its \<open>type\<close> and the fields the handlers read, each with the
  type of the \<open>FrameData\<close> or store field it is written to (and the prefix \<open>m_\<close>
  where a record above has the name). A field that is absent,
  \<open>null\<close> or (for \<open>error\<close>) of no use to \<open>||\<close> is \<open>None\<close> or the empty
  string.
\<close>

record inbound =
  msg_type :: string
  m_session_id :: "string option"
  success :: bool
  m_frame_id :: string
  m_response :: string
  m_model :: string
  m_processing_time :: number
  m_prompt :: string
  m_temporal_context :: "TemporalContext option"
  m_error :: "string option"
  stats :: "SessionStats option"

text \<open>The handlers the application registers with \<open>onMessage\<close>.\<close>

datatype handler = H_session_started | H_vlm_response | H_session_stats | H_session_error

text \<open>
  The service object (\<open>ws\<close>, \<open>reconnectAttempts\<close>, \<open>messageHandlers\<close>) together
  with what it has done to the browser: the sockets constructed so far (\<open>ws\<close> is an
  index into them), the promises returned by \<open>connect\<close>, the delays of the pending
  \<open>setTimeout\<close> calls (each runs \<open>connect\<close>), the messages handed to
  \<open>WebSocket.send\<close> with the socket that took them, and the calls of the callbacks.
\<close>

record WebSocketService =
  ws :: "nat option"
  reconnectAttempts :: nat
  messageHandlers :: "string \<rightharpoonup> handler"
  sockets :: "WebSocket list"
  promises :: "promise_state list"
  timeouts :: "nat list"
  transmitted :: "(nat \<times> outbound) list"
  signals :: "signal list"

definition maxReconnectAttempts :: nat where
  "maxReconnectAttempts = 5"

definition reconnectDelay :: nat where
  "reconnectDelay = 1000"

definition newWebSocketService :: WebSocketService where
  "newWebSocketService =
     \<lparr> ws = None, reconnectAttempts = 0, messageHandlers = Map.empty,
       sockets = [], promises = [], timeouts = [], transmitted = [], signals = [] \<rparr>"

text \<open>A promise settles once: \<open>resolve\<close> and \<open>reject\<close> on a settled promise do nothing.\<close>

definition settle :: "nat \<Rightarrow> promise_state \<Rightarrow> promise_state list \<Rightarrow> promise_state list" where
  "settle p v ps = (if p < length ps \<and> ps ! p = Pending then ps[p := v] else ps)"

definition set_readyState :: "nat \<Rightarrow> readyState \<Rightarrow> WebSocket list \<Rightarrow> WebSocket list" where
  "set_readyState i r socks =
     (if i < length socks then socks[i := (socks ! i)\<lparr>readyState := r\<rparr>] else socks)"

text \<open>
  \<open>connect()\<close>. The flag says whether \<open>new WebSocket(url)\<close> throws. The promise
  returned is the one at index \<open>length (promises s)\<close> of the result.
\<close>

definition connect :: "bool \<Rightarrow> WebSocketService \<Rightarrow> WebSocketService" where
  "connect ctor_throws s =
     (let p = length (promises s);
          s1 = s\<lparr>promises := promises s @ [Pending]\<rparr>
      in if ctor_throws then s1\<lparr>promises := settle p Rejected (promises s1)\<rparr>
         else s1\<lparr>ws := Some (length (sockets s1)),
                 sockets := sockets s1 @ [\<lparr>readyState = CONNECTING, resolver = p\<rparr>]\<rparr>)"

definition attemptReconnect :: "WebSocketService \<Rightarrow> WebSocketService" where
  "attemptReconnect s =
     (if reconnectAttempts s < maxReconnectAttempts then
        (let s1 = s\<lparr>reconnectAttempts := reconnectAttempts s + 1\<rparr>
         in s1\<lparr>timeouts := timeouts s1 @ [reconnectDelay * reconnectAttempts s1]\<rparr>)
      else s\<lparr>signals := signals s @ [OnError ''Failed to reconnect after maximum attempts'']\<rparr>)"

text \<open>The handlers \<open>connect\<close> installs on a socket.\<close>

definition onopen :: "nat \<Rightarrow> WebSocketService \<Rightarrow> WebSocketService" where
  "onopen p s =
     (let s1 = s\<lparr>reconnectAttempts := 0\<rparr>;
          s2 = s1\<lparr>signals := signals s1 @ [OnConnect]\<rparr>
      in s2\<lparr>promises := settle p Resolved (promises s2)\<rparr>)"

definition onclose :: "WebSocketService \<Rightarrow> WebSocketService" where
  "onclose s = attemptReconnect (s\<lparr>signals := signals s @ [OnDisconnect]\<rparr>)"

definition onerror :: "nat \<Rightarrow> WebSocketService \<Rightarrow> WebSocketService" where
  "onerror p s =
     (let s1 = s\<lparr>signals := signals s @ [OnError ''WebSocket connection error'']\<rparr>
      in s1\<lparr>promises := settle p Rejected (promises s1)\<rparr>)"

definition handleMessage :: "inbound \<Rightarrow> WebSocketService \<Rightarrow> handler option" where
  "handleMessage message s = messageHandlers s (msg_type message)"

text \<open>\<open>onmessage\<close>: \<open>None\<close> is a payload \<open>JSON.parse\<close> rejects, which is dropped.\<close>

definition onmessage :: "inbound option \<Rightarrow> WebSocketService \<Rightarrow> (handler \<times> inbound) option" where
  "onmessage payload s =
     (case payload of
        None \<Rightarrow> None
      | Some message \<Rightarrow>
          (case handleMessage message s of
             None \<Rightarrow> None
           | Some h \<Rightarrow> Some (h, message)))"

text \<open>
  The browser's events on socket \<open>i\<close>: the browser moves \<open>readyState\<close>, then runs
  the handler. An event on an index that is no socket does nothing.
\<close>

definition ev_open :: "nat \<Rightarrow> WebSocketService \<Rightarrow> WebSocketService" where
  "ev_open i s =
     (if i < length (sockets s)
      then onopen (resolver (sockets s ! i)) (s\<lparr>sockets := set_readyState i OPEN (sockets s)\<rparr>)
      else s)"

definition ev_close :: "nat \<Rightarrow> WebSocketService \<Rightarrow> WebSocketService" where
  "ev_close i s =
     (if i < length (sockets s)
      then onclose (s\<lparr>sockets := set_readyState i CLOSED (sockets s)\<rparr>)
      else s)"

definition ev_error :: "nat \<Rightarrow> WebSocketService \<Rightarrow> WebSocketService" where
  "ev_error i s =
     (if i < length (sockets s) then onerror (resolver (sockets s ! i)) s else s)"

text \<open>
  The \<open>k\<close>-th pending timeout fires: it runs \<open>this.connect()\<close>; the \<open>catch\<close> on
  the promise only logs.
\<close>

definition ev_timeout :: "nat \<Rightarrow> bool \<Rightarrow> WebSocketService \<Rightarrow> WebSocketService" where
  "ev_timeout k ctor_throws s =
     (if k < length (timeouts s)
      then connect ctor_throws (s\<lparr>timeouts := take k (timeouts s) @ drop (Suc k) (timeouts s)\<rparr>)
      else s)"

text \<open>
  \<open>WebSocket.close()\<close>: nothing on a socket that is closing or closed, otherwise the
  socket starts closing; its \<open>close\<close> event comes later.
\<close>

definition socket_close :: "nat \<Rightarrow> WebSocket list \<Rightarrow> WebSocket list" where
  "socket_close i socks =
     (if i < length socks \<and> readyState (socks ! i) \<noteq> CLOSING \<and> readyState (socks ! i) \<noteq> CLOSED
      then set_readyState i CLOSING socks
      else socks)"

definition disconnect :: "WebSocketService \<Rightarrow> WebSocketService" where
  "disconnect s =
     (case ws s of
        None \<Rightarrow> s
      | Some i \<Rightarrow> (let s1 = s\<lparr>sockets := socket_close i (sockets s)\<rparr> in s1\<lparr>ws := None\<rparr>))"

definition send :: "outbound \<Rightarrow> WebSocketService \<Rightarrow> WebSocketService" where
  "send message s =
     (case ws s of
        None \<Rightarrow> s
      | Some i \<Rightarrow>
          if i < length (sockets s) \<and> readyState (sockets s ! i) = OPEN
          then s\<lparr>transmitted := transmitted s @ [(i, message)]\<rparr>
          else s)"

definition onMessage :: "string \<Rightarrow> handler \<Rightarrow> WebSocketService \<Rightarrow> WebSocketService" where
  "onMessage type h s = s\<lparr>messageHandlers := (messageHandlers s)(type \<mapsto> h)\<rparr>"

definition ws_startSession :: "string option \<Rightarrow> WebSocketService \<Rightarrow> WebSocketService" where
  "ws_startSession sessionId s = send (start_session sessionId) s"

definition ws_queryVLM :: "vlm_query_params \<Rightarrow> WebSocketService \<Rightarrow> WebSocketService" where
  "ws_queryVLM params s = send (vlm_query params) s"

definition ws_getSessionStats :: "string option \<Rightarrow> WebSocketService \<Rightarrow> WebSocketService" where
  "ws_getSessionStats sessionId s = send (get_session_stats sessionId) s"

definition ws_updateContextWindow :: "number \<Rightarrow> WebSocketService \<Rightarrow> WebSocketService" where
  "ws_updateContextWindow cw s = send (update_context_window cw) s"

definition getSummary :: "string option \<Rightarrow> string option \<Rightarrow> WebSocketService \<Rightarrow> WebSocketService" where
  "getSummary m summaryPrompt s = send (get_summary m summaryPrompt) s"

definition ws_ping :: "WebSocketService \<Rightarrow> WebSocketService" where
  "ws_ping s = send ping s"

definition ws_isConnected :: "WebSocketService \<Rightarrow> bool" where
  "ws_isConnected s =
     (case ws s of
        None \<Rightarrow> False
      | Some i \<Rightarrow> i < length (sockets s) \<and> readyState (sockets s ! i) = OPEN)"

text \<open>
  The events of the transport: the browser's events on a socket, a timeout firing, and
  the calls \<open>connect()\<close> and \<open>disconnect()\<close> made from outside.
\<close>

datatype ws_event =
    SocketOpen nat
  | SocketClose nat
  | SocketError nat
  | TimeoutFires nat bool
  | CallConnect bool
  | CallDisconnect

fun ws_step :: "ws_event \<Rightarrow> WebSocketService \<Rightarrow> WebSocketService" where
  "ws_step (SocketOpen i) s = ev_open i s"
| "ws_step (SocketClose i) s = ev_close i s"
| "ws_step (SocketError i) s = ev_error i s"
| "ws_step (TimeoutFires k t) s = ev_timeout k t s"
| "ws_step (CallConnect t) s = connect t s"
| "ws_step CallDisconnect s = disconnect s"

fun ws_run :: "ws_event list \<Rightarrow> WebSocketService \<Rightarrow> WebSocketService" where
  "ws_run [] s = s"
| "ws_run (e # es) s = ws_run es (ws_step e s)"

fun is_close :: "ws_event \<Rightarrow> bool" where
  "is_close (SocketClose i) = True"
| "is_close _ = False"

fun is_open :: "ws_event \<Rightarrow> bool" where
  "is_open (SocketOpen i) = True"
| "is_open _ = False"

text \<open>
  An event can happen in a state: a socket event names a socket that exists, a timeout
  one that is pending.
\<close>

fun enabled :: "ws_event \<Rightarrow> WebSocketService \<Rightarrow> bool" where
  "enabled (SocketOpen i) s = (i < length (sockets s))"
| "enabled (SocketClose i) s = (i < length (sockets s))"
| "enabled (SocketError i) s = (i < length (sockets s))"
| "enabled (TimeoutFires k t) s = (k < length (timeouts s))"
| "enabled (CallConnect t) s = True"
| "enabled CallDisconnect s = True"

fun wf_trace :: "ws_event list \<Rightarrow> WebSocketService \<Rightarrow> bool" where
  "wf_trace [] s = True"
| "wf_trace (e # es) s = (enabled e s \<and> wf_trace es (ws_step e s))"

subsection \<open>The orchestrator (\<open>App\<close>)\<close>

text \<open>
  What the interval callback closed over at the render that armed it.
\<close>

record pacer_closure =
  c_isProcessing :: bool
  c_settings :: AppSettings
  c_currentSession :: "string option"

text \<open>
  The component: the store, the two refs. \<open>intervalRef\<close> holds the running interval,
  as the closure of its callback.
\<close>

record App =
  store :: AppState
  wsRef :: "WebSocketService option"
  intervalRef :: "pacer_closure option"

text \<open>
  The handlers registered in \<open>initializeApp\<close>, on the store. \<open>now\<close> is
  \<open>new Date().toISOString()\<close>.
\<close>

definition on_session_started :: "inbound \<Rightarrow> AppState \<Rightarrow> AppState" where
  "on_session_started data st = setCurrentSession (m_session_id data) st"

definition error_or_default :: "string option \<Rightarrow> string" where
  "error_or_default e =
     (case e of None \<Rightarrow> ''VLM query failed'' | Some m \<Rightarrow> if m = [] then ''VLM query failed'' else m)"

definition on_vlm_response :: "inbound \<Rightarrow> string \<Rightarrow> AppState \<Rightarrow> AppState" where
  "on_vlm_response data now st =
     (let st1 =
        (if success data then
           (let st2 = addFrame
                  \<lparr> timestamp = now,
                    frame_id = m_frame_id data,
                    response = m_response data,
                    model = m_model data,
                    processing_time = m_processing_time data,
                    frame_prompt = m_prompt data,
                    detected_objects = Some [],
                    temporal_context = m_temporal_context data \<rparr> st
            in setTemporalContext (m_temporal_context data) st2)
         else setError (Some (error_or_default (m_error data))) st)
      in setProcessingStatus False st1)"

definition on_session_stats :: "inbound \<Rightarrow> AppState \<Rightarrow> AppState" where
  "on_session_stats data st = setSessionStats (stats data) st"

definition on_session_error :: "inbound \<Rightarrow> AppState \<Rightarrow> AppState" where
  "on_session_error data st = setError (m_error data) st"

fun run_handler :: "handler \<Rightarrow> inbound \<Rightarrow> string \<Rightarrow> AppState \<Rightarrow> AppState" where
  "run_handler H_session_started data now st = on_session_started data st"
| "run_handler H_vlm_response data now st = on_vlm_response data now st"
| "run_handler H_session_stats data now st = on_session_stats data st"
| "run_handler H_session_error data now st = on_session_error data st"

definition registerHandlers :: "WebSocketService \<Rightarrow> WebSocketService" where
  "registerHandlers s =
     onMessage ''session_error'' H_session_error
       (onMessage ''session_stats'' H_session_stats
         (onMessage ''vlm_response'' H_vlm_response
           (onMessage ''session_started'' H_session_started s)))"

text \<open>A message arrives on a socket of the service in \<open>wsRef\<close>.\<close>

definition app_onmessage :: "inbound option \<Rightarrow> string \<Rightarrow> App \<Rightarrow> App" where
  "app_onmessage payload now a =
     (case wsRef a of
        None \<Rightarrow> a
      | Some svc \<Rightarrow>
          (case onmessage payload svc of
             None \<Rightarrow> a
           | Some (h, message) \<Rightarrow> a\<lparr>store := run_handler h message now (store a)\<rparr>))"

text \<open>\<open>currentSession || undefined\<close>.\<close>

definition session_or_undefined :: "string option \<Rightarrow> string option" where
  "session_or_undefined cs =
     (case cs of None \<Rightarrow> None | Some sid \<Rightarrow> if sid = [] then None else Some sid)"

definition query_params :: "pacer_closure \<Rightarrow> string \<Rightarrow> string \<Rightarrow> vlm_query_params" where
  "query_params c frameData now =
     \<lparr> q_model = selectedModel (c_settings c),
       image_b64 = frameData,
       q_prompt = prompt (c_settings c),
       q_session_id = session_or_undefined (c_currentSession c),
       use_temporal_context = useTemporalContext (c_settings c),
       q_settings =
         \<lparr> max_tokens = maxTokens (c_settings c),
           q_temperature = temperature (c_settings c),
           delay_seconds = delaySeconds (c_settings c) \<rparr>,
       q_timestamp = now \<rparr>"

text \<open>
  The interval fires. The callback reads \<open>isProcessing\<close> from its closure and
  \<open>wsRef.current\<close> from the ref, calls \<open>captureFrame\<close>, and on a truthy frame sets
  the processing flag and then hands the query to the service.
\<close>

definition pacer_tick :: "capture_env \<Rightarrow> string \<Rightarrow> App \<Rightarrow> App" where
  "pacer_tick env now a =
     (case intervalRef a of
        None \<Rightarrow> a
      | Some c \<Rightarrow>
          (case wsRef a of
             None \<Rightarrow> a
           | Some svc \<Rightarrow>
               if c_isProcessing c then a
               else
                 (case captureFrame env of
                    Inr (Str frameData) \<Rightarrow>
                      if frameData = [] then a
                      else
                        (let a1 = a\<lparr>store := setProcessingStatus True (store a)\<rparr>
                         in a1\<lparr>wsRef := Some (ws_queryVLM (query_params c frameData now) svc)\<rparr>)
                  | _ \<Rightarrow> a)))"

definition handleStartAnalysis :: "App \<Rightarrow> App" where
  "handleStartAnalysis a =
     (case wsRef a of
        None \<Rightarrow> a\<lparr>store := setError (Some ''WebSocket not connected'') (store a)\<rparr>
      | Some svc \<Rightarrow>
          if \<not> isConnected (store a)
          then a\<lparr>store := setError (Some ''WebSocket not connected'') (store a)\<rparr>
          else
            (let a1 = (if session_or_undefined (currentSession (store a)) = None
                       then a\<lparr>wsRef := Some (ws_startSession None svc)\<rparr>
                       else a);
                 a2 = a1\<lparr>store := setStreamingStatus True (store a1)\<rparr>
             in a2\<lparr>store := clearFrameHistory (store a2)\<rparr>))"

definition handleStopAnalysis :: "App \<Rightarrow> App" where
  "handleStopAnalysis a =
     (let a1 = a\<lparr>store := setStreamingStatus False (store a)\<rparr>
      in a1\<lparr>store := setProcessingStatus False (store a1)\<rparr>)"

definition handleClearHistory :: "App \<Rightarrow> App" where
  "handleClearHistory a =
     (let a1 = a\<lparr>store := clearFrameHistory (store a)\<rparr>;
          a2 = a1\<lparr>store := setTemporalContext None (store a1)\<rparr>
      in a2\<lparr>store := setSessionStats None (store a2)\<rparr>)"

text \<open>
  The streaming effect. After an event the component renders again; when one of the
  effect's dependencies has changed, the cleanup of the previous run clears the interval
  and the effect body runs on the new values. (\<open>captureFrame\<close>, the last dependency,
  belongs to the camera hook; a change of it alone rebuilds the same interval.)
\<close>

definition effect_deps ::
  "AppState \<Rightarrow> bool \<times> bool \<times> bool \<times> AppSettings \<times> string option" where
  "effect_deps st = (isStreaming st, isConnected st, isProcessing st, settings st, currentSession st)"

definition effect_cleanup :: "App \<Rightarrow> App" where
  "effect_cleanup a = (case intervalRef a of None \<Rightarrow> a | Some c \<Rightarrow> a\<lparr>intervalRef := None\<rparr>)"

definition streaming_effect :: "App \<Rightarrow> App" where
  "streaming_effect a =
     (if isStreaming (store a) \<and> isConnected (store a) \<and> \<not> isProcessing (store a)
      then a\<lparr>intervalRef :=
               Some \<lparr> c_isProcessing = isProcessing (store a),
                      c_settings = settings (store a),
                      c_currentSession = currentSession (store a) \<rparr>\<rparr>
      else (case intervalRef a of None \<Rightarrow> a | Some c \<Rightarrow> a\<lparr>intervalRef := None\<rparr>))"

definition rerender :: "App \<Rightarrow> App \<Rightarrow> App" where
  "rerender before a =
     (if effect_deps (store before) \<noteq> effect_deps (store a)
      then streaming_effect (effect_cleanup a)
      else a)"

text \<open>
  The events of the component: a tick of the interval (with what the camera gives at that
  moment), a message on the socket, and the three buttons.
\<close>

datatype app_event =
    Tick capture_env string
  | Message "inbound option" string
  | StartAnalysis
  | StopAnalysis
  | ClearHistory

fun app_handle :: "app_event \<Rightarrow> App \<Rightarrow> App" where
  "app_handle (Tick env now) a = pacer_tick env now a"
| "app_handle (Message payload now) a = app_onmessage payload now a"
| "app_handle StartAnalysis a = handleStartAnalysis a"
| "app_handle StopAnalysis a = handleStopAnalysis a"
| "app_handle ClearHistory a = handleClearHistory a"

definition app_step :: "app_event \<Rightarrow> App \<Rightarrow> App" where
  "app_step e a = rerender a (app_handle e a)"

fun app_run :: "app_event list \<Rightarrow> App \<Rightarrow> App" where
  "app_run [] a = a"
| "app_run (e # es) a = app_run es (app_step e a)"

text \<open>Kinds of event: a tick, the arrival of a \<open>vlm_response\<close>, the stop command.\<close>

fun is_tick :: "app_event \<Rightarrow> bool" where
  "is_tick (Tick env now) = True"
| "is_tick _ = False"

fun is_vlm_response :: "app_event \<Rightarrow> bool" where
  "is_vlm_response (Message (Some m) now) = (msg_type m = ''vlm_response'')"
| "is_vlm_response _ = False"

fun is_stop :: "app_event \<Rightarrow> bool" where
  "is_stop StopAnalysis = True"
| "is_stop _ = False"

fun is_vlm_query :: "nat \<times> outbound \<Rightarrow> bool" where
  "is_vlm_query (i, vlm_query params) = True"
| "is_vlm_query _ = False"

text \<open>The number of \<open>vlm_query\<close> messages the component has put on the wire.\<close>

definition queries_sent :: "App \<Rightarrow> nat" where
  "queries_sent a =
     (case wsRef a of None \<Rightarrow> 0 | Some svc \<Rightarrow> length (filter is_vlm_query (transmitted svc)))"

text \<open>
  The analysis queries outstanding after a trace that starts with \<open>k\<close> of them
  outstanding: a query put on the wire adds one, a \<open>vlm_response\<close> answers one.
\<close>

fun outstanding :: "nat \<Rightarrow> app_event list \<Rightarrow> App \<Rightarrow> nat" where
  "outstanding k [] a = k"
| "outstanding k (e # es) a =
     outstanding
       ((if is_vlm_response e then k - 1 else k) + (queries_sent (app_step e a) - queries_sent a))
       es (app_step e a)"

text \<open>What holds of the pacer between events: an armed interval means the flag is clear.\<close>

definition pacer_armed_clear :: "App \<Rightarrow> bool" where
  "pacer_armed_clear a = (intervalRef a = None \<or> \<not> isProcessing (store a))"

text \<open>
  The service in \<open>wsRef\<close>, when there is one, has the handlers that
  \<open>initializeApp\<close> registers on a new service, and no other.
\<close>

definition handlers_as_registered :: "App \<Rightarrow> bool" where
  "handlers_as_registered a =
     (case wsRef a of
        None \<Rightarrow> True
      | Some svc \<Rightarrow> messageHandlers svc = messageHandlers (registerHandlers newWebSocketService))"

subsection \<open>States and inputs used in the examples\<close>

definition frame0 :: FrameData where
  "frame0 =
     \<lparr> timestamp = ''t0'', frame_id = ''0'', response = ''r'', model = ''m'',
       processing_time = 1, frame_prompt = ''p'', detected_objects = Some [],
       temporal_context = None \<rparr>"

definition frame1 :: FrameData where
  "frame1 = frame0\<lparr>timestamp := ''t1'', frame_id := ''1''\<rparr>"

definition fullState :: AppState where
  "fullState = initialState\<lparr>frameHistory := replicate 50 frame0\<rparr>"

text \<open>The service after \<open>connect()\<close> and the \<open>open\<close> event of its socket.\<close>

definition openService :: WebSocketService where
  "openService = ev_open 0 (connect False (registerHandlers newWebSocketService))"

text \<open>The component connected and streaming, no query in flight, an earlier error shown.\<close>

definition streamingApp :: App where
  "streamingApp =
     \<lparr> store = initialState
         \<lparr> currentSession := Some ''s1'', isConnected := True, isStreaming := True,
           error := Some ''earlier error'' \<rparr>,
       wsRef = Some openService,
       intervalRef =
         Some \<lparr> c_isProcessing = False, c_settings = defaultSettings,
                c_currentSession = Some ''s1'' \<rparr> \<rparr>"

text \<open>
  Five failed connections in a row, each closed and followed by the timeout that opens
  the next socket; the close of socket 5 is then the sixth.
\<close>

definition sixthClose :: "ws_event list" where
  "sixthClose =
     [SocketClose 0, TimeoutFires 0 False, SocketClose 1, TimeoutFires 0 False,
      SocketClose 2, TimeoutFires 0 False, SocketClose 3, TimeoutFires 0 False,
      SocketClose 4, TimeoutFires 0 False]"

definition goodCamera :: capture_env where
  "goodCamera =
     \<lparr> videoRef_current = True, canvasRef_current = True, cam_isStreaming = True,
       getContext = Inr True, drawImage = Inr (),
       toDataURL = Inr ''data:image/jpeg;base64,QUJD'' \<rparr>"

definition tc1 :: TemporalContext where
  "tc1 = \<lparr> recent_responses = [''a cat''], last_update = ''t1'' \<rparr>"

definition responseOk :: inbound where
  "responseOk =
     \<lparr> msg_type = ''vlm_response'', m_session_id = None, success = True, m_frame_id = ''1'',
       m_response = ''a cat'', m_model = ''gemini-1.5-flash'', m_processing_time = 1,
       m_prompt = ''What do you see in this image?'', m_temporal_context = Some tc1,
       m_error = None, stats = None \<rparr>"

definition responseFailed :: inbound where
  "responseFailed = responseOk\<lparr>success := False, m_error := Some ''quota''\<rparr>"

section \<open>Properties\<close>

subsection \<open>Frame history\<close>

lemma slice_last_drop: "slice_last k xs = drop (length xs - k) xs"
  by (simp add: slice_last_def)

lemma slice_last_append: "slice_last k (slice_last k xs @ ys) = slice_last k (xs @ ys)"
  by (cases "length xs \<le> k") (simp_all add: slice_last_drop add.commute)

lemma frameHistory_addFrames:
  "frameHistory (addFrames fs st) =
     (if fs = [] then frameHistory st else slice_last 50 (frameHistory st @ fs))"
proof (induction fs arbitrary: st)
  case Nil
  show ?case by simp
next
  case (Cons f fs)
  have "slice_last 50 (slice_last 50 (frameHistory st @ [f]) @ fs) =
        slice_last 50 ((frameHistory st @ [f]) @ fs)"
    by (rule slice_last_append)
  then show ?case
    by (simp add: Cons.IH addFrame_def)
qed

text \<open>
  C2. Starting from a history within the cap (the store starts with the empty history),
  after any sequence of \<open>addFrame\<close> calls the history has at most 50 records and is
  the last 50 of the old history followed by the added frames, in that order; on a full
  history one \<open>addFrame\<close> drops exactly the oldest record and puts the new one last.
\<close>

theorem addFrame_cap_fifo:
  assumes "length (frameHistory st) \<le> 50"
  shows "length (frameHistory (addFrames fs st)) \<le> 50
       \<and> frameHistory (addFrames fs st) =
           drop (length (frameHistory st @ fs) - 50) (frameHistory st @ fs)
       \<and> (length (frameHistory st) = 50 \<longrightarrow>
            frameHistory (addFrame f st) = tl (frameHistory st) @ [f])"
proof -
  have a: "frameHistory (addFrames fs st) =
      drop (length (frameHistory st @ fs) - 50) (frameHistory st @ fs)"
    using assms by (simp add: frameHistory_addFrames slice_last_drop)
  have b: "length (frameHistory (addFrames fs st)) \<le> 50"
    unfolding a by simp
  have c: "length (frameHistory st) = 50 \<longrightarrow>
      frameHistory (addFrame f st) = tl (frameHistory st) @ [f]"
    by (cases "frameHistory st") (simp_all add: addFrame_def slice_last_drop)
  from a b c show ?thesis by blast
qed

theorem addFrame_cap_fifo_witness:
  "length (frameHistory fullState) \<le> 50
   \<and> length (frameHistory fullState) = 50
   \<and> frameHistory (addFrames [frame1] fullState) = replicate 49 frame0 @ [frame1]
   \<and> frameHistory (addFrame frame1 fullState) = replicate 49 frame0 @ [frame1]"
proof -
  have h: "length (frameHistory fullState) \<le> 50"
    by (simp add: fullState_def)
  have t: "tl (replicate 50 frame0) = replicate 49 frame0"
    by simp
  have d: "drop (Suc 0) (replicate 50 frame0) = replicate 49 frame0"
    by simp
  show ?thesis
    using addFrame_cap_fifo [OF h, of "[frame1]" frame1] t d
    by (simp add: fullState_def)
qed

subsection \<open>The fetch surface\<close>

lemma fetch_ok_failed: "request_failed f \<Longrightarrow> isl (fetch_ok f msg)"
  by (cases f) (simp_all add: request_failed_def fetch_ok_def)

lemma rethrow_failed:
  "request_failed f \<Longrightarrow> isl (try_catch (bind_err (fetch_ok f msg) k) Inl)"
  using fetch_ok_failed [of f msg]
  by (cases "fetch_ok f msg") (simp_all add: try_catch_def bind_err_def)

text \<open>
  C7, as stated, fails: when \<open>fetch\<close> rejects, \<open>healthCheck\<close> returns \<open>false\<close> to
  its caller instead of failing.
\<close>

theorem healthCheck_swallows_failure:
  "request_failed Rejects \<and> api_call HealthCheck Rejects = Inr (JBool False)
   \<and> \<not> isl (api_call HealthCheck Rejects)"
  by (simp add: request_failed_def healthCheck_def try_catch_def)

text \<open>
  C7, amended. On a non-2xx response or a transport failure every method other than
  \<open>healthCheck\<close> and \<open>getContextWindow\<close> fails to its caller; \<open>healthCheck\<close>
  returns \<open>false\<close> and \<open>getContextWindow\<close> returns its fallback 10.
\<close>

theorem api_failure_propagates:
  assumes "request_failed f"
  shows "(m \<noteq> HealthCheck \<and> m \<noteq> GetContextWindow \<longrightarrow> isl (api_call m f))
       \<and> api_call HealthCheck f = Inr (JBool False)
       \<and> api_call GetContextWindow f = Inr (JNum 10)"
proof -
  have a: "m \<noteq> HealthCheck \<and> m \<noteq> GetContextWindow \<longrightarrow> isl (api_call m f)"
    using assms
    by (cases m)
      (simp_all add: getModels_def getSettings_def queryVLM_def queryVLMWithContext_def
        startSession_def getSessionStats_def clearSession_def updateContextWindow_def
        updateSummaryWindow_def updateWindows_def rethrow_failed)
  have b: "api_call HealthCheck f = Inr (JBool False)"
    using assms
    by (cases f) (simp_all add: request_failed_def healthCheck_def try_catch_def)
  have c: "api_call GetContextWindow f = Inr (JNum 10)"
    using fetch_ok_failed [OF assms, of "''Failed to fetch context window''"]
    by (cases "fetch_ok f ''Failed to fetch context window''")
      (simp_all add: getContextWindow_def try_catch_def bind_err_def)
  from a b c show ?thesis by blast
qed

theorem api_failure_propagates_witness:
  "request_failed (Responds \<lparr>ok = False, json = None\<rparr>)
   \<and> api_call GetModels (Responds \<lparr>ok = False, json = None\<rparr>)
       = Inl (Error ''Failed to fetch models'')
   \<and> api_call HealthCheck (Responds \<lparr>ok = False, json = None\<rparr>) = Inr (JBool False)
   \<and> api_call GetContextWindow (Responds \<lparr>ok = False, json = None\<rparr>) = Inr (JNum 10)"
proof -
  have h: "request_failed (Responds \<lparr>ok = False, json = None\<rparr>)"
    by (simp add: request_failed_def)
  have g: "api_call GetModels (Responds \<lparr>ok = False, json = None\<rparr>)
      = Inl (Error ''Failed to fetch models'')"
    by (simp add: getModels_def try_catch_def bind_err_def fetch_ok_def)
  show ?thesis
    using api_failure_propagates [OF h, of GetModels] h g by simp
qed

subsection \<open>\<open>captureFrame\<close>\<close>

lemma split_on_no_sep: "c \<notin> set xs \<Longrightarrow> split_on c xs = [xs]"
  by (induction xs) auto

lemma split_on_first: "c \<notin> set pre \<Longrightarrow> split_on c (pre @ c # rest) = pre # split_on c rest"
  by (induction pre) auto

lemma captureFrame_returns: "\<exists>r. captureFrame env = Inr r"
  by (cases "getContext env"; cases "drawImage env"; cases "toDataURL env")
     (auto simp: captureFrame_def try_catch_def bind_err_def)

text \<open>
  C10. \<open>captureFrame\<close> always returns and never throws. It returns \<open>null\<close> when an
  element is absent, the camera is not streaming, the canvas has no 2D context, or a
  canvas call throws. Otherwise, on the data URL \<open>prefix,payload\<close> that
  \<open>toDataURL\<close> produces (no comma in the prefix, none in the base64 payload), it
  returns the payload.
\<close>

theorem captureFrame_total:
  "(\<exists>r. captureFrame env = Inr r)
   \<and> (\<not> videoRef_current env \<or> \<not> canvasRef_current env \<or> \<not> cam_isStreaming env
        \<longrightarrow> captureFrame env = Inr Null)
   \<and> (getContext env = Inr False \<longrightarrow> captureFrame env = Inr Null)
   \<and> (isl (getContext env) \<or> isl (drawImage env) \<or> isl (toDataURL env)
        \<longrightarrow> captureFrame env = Inr Null)
   \<and> (videoRef_current env \<and> canvasRef_current env \<and> cam_isStreaming env
      \<and> getContext env = Inr True \<and> drawImage env = Inr ()
      \<and> toDataURL env = Inr (pre @ CHR '','' # payload)
      \<and> CHR '','' \<notin> set pre \<and> CHR '','' \<notin> set payload
        \<longrightarrow> captureFrame env = Inr (Str payload))"
proof -
  have e: "isl (getContext env) \<or> isl (drawImage env) \<or> isl (toDataURL env)
        \<longrightarrow> captureFrame env = Inr Null"
    by (cases "getContext env"; cases "drawImage env"; cases "toDataURL env")
       (auto simp: captureFrame_def try_catch_def bind_err_def)
  have p: "videoRef_current env \<and> canvasRef_current env \<and> cam_isStreaming env
      \<and> getContext env = Inr True \<and> drawImage env = Inr ()
      \<and> toDataURL env = Inr (pre @ CHR '','' # payload)
      \<and> CHR '','' \<notin> set pre \<and> CHR '','' \<notin> set payload
        \<longrightarrow> captureFrame env = Inr (Str payload)"
    by (simp add: captureFrame_def try_catch_def bind_err_def split_on_first
        split_on_no_sep index_str_def)
  have n: "\<not> videoRef_current env \<or> \<not> canvasRef_current env \<or> \<not> cam_isStreaming env
        \<longrightarrow> captureFrame env = Inr Null"
    by (auto simp: captureFrame_def)
  have c: "getContext env = Inr False \<longrightarrow> captureFrame env = Inr Null"
    by (simp add: captureFrame_def try_catch_def bind_err_def)
  from captureFrame_returns e p n c show ?thesis by blast
qed

theorem captureFrame_total_witness:
  "captureFrame goodCamera = Inr (Str ''QUJD'')
   \<and> captureFrame (goodCamera\<lparr>cam_isStreaming := False\<rparr>) = Inr Null
   \<and> captureFrame (goodCamera\<lparr>getContext := Inr False\<rparr>) = Inr Null
   \<and> captureFrame (goodCamera\<lparr>drawImage := Inl (DOMException ''tainted'')\<rparr>) = Inr Null"
  using captureFrame_total [of goodCamera "''data:image/jpeg;base64''" "''QUJD''"]
    captureFrame_total [of "goodCamera\<lparr>cam_isStreaming := False\<rparr>" "[]" "[]"]
    captureFrame_total [of "goodCamera\<lparr>getContext := Inr False\<rparr>" "[]" "[]"]
    captureFrame_total [of "goodCamera\<lparr>drawImage := Inl (DOMException ''tainted'')\<rparr>" "[]" "[]"]
  by (simp add: goodCamera_def)

subsection \<open>The transport\<close>

lemma ws_run_append: "ws_run (es @ fs) s = ws_run fs (ws_run es s)"
  by (induction es arbitrary: s) simp_all

lemma wf_trace_append: "wf_trace (es @ fs) s = (wf_trace es s \<and> wf_trace fs (ws_run es s))"
  by (induction es arbitrary: s) simp_all

lemma attemptReconnect_below:
  "reconnectAttempts s < maxReconnectAttempts \<Longrightarrow>
     attemptReconnect s =
       s\<lparr>reconnectAttempts := Suc (reconnectAttempts s),
         timeouts := timeouts s @ [reconnectDelay * Suc (reconnectAttempts s)]\<rparr>"
  by (simp add: attemptReconnect_def Let_def)

lemma attemptReconnect_exhausted:
  "\<not> reconnectAttempts s < maxReconnectAttempts \<Longrightarrow>
     attemptReconnect s =
       s\<lparr>signals := signals s @ [OnError ''Failed to reconnect after maximum attempts'']\<rparr>"
  by (simp add: attemptReconnect_def)

lemma ev_close_below:
  assumes "i < length (sockets s)" "reconnectAttempts s < maxReconnectAttempts"
  shows "reconnectAttempts (ev_close i s) = Suc (reconnectAttempts s)"
    and "timeouts (ev_close i s) = timeouts s @ [reconnectDelay * Suc (reconnectAttempts s)]"
    and "signals (ev_close i s) = signals s @ [OnDisconnect]"
  using assms by (simp_all add: ev_close_def onclose_def attemptReconnect_below)

lemma ev_close_exhausted:
  assumes "i < length (sockets s)" "\<not> reconnectAttempts s < maxReconnectAttempts"
  shows "reconnectAttempts (ev_close i s) = reconnectAttempts s"
    and "timeouts (ev_close i s) = timeouts s"
    and "signals (ev_close i s) =
           signals s @ [OnDisconnect, OnError ''Failed to reconnect after maximum attempts'']"
  using assms by (simp_all add: ev_close_def onclose_def attemptReconnect_exhausted)

lemma reconnectAttempts_connect [simp]: "reconnectAttempts (connect t s) = reconnectAttempts s"
  by (simp add: connect_def Let_def)

lemma reconnectAttempts_other:
  "\<not> is_open e \<Longrightarrow> \<not> is_close e \<Longrightarrow> reconnectAttempts (ws_step e s) = reconnectAttempts s"
  by (cases e)
     (simp_all add: ev_error_def onerror_def ev_timeout_def disconnect_def Let_def
        split: option.splits)

lemma reconnectAttempts_run:
  "\<forall>e\<in>set es. \<not> is_open e \<Longrightarrow> wf_trace es s \<Longrightarrow>
     reconnectAttempts s \<le> maxReconnectAttempts \<Longrightarrow>
     reconnectAttempts (ws_run es s) =
       min maxReconnectAttempts (reconnectAttempts s + length (filter is_close es))"
proof (induction es arbitrary: s)
  case Nil
  then show ?case by simp
next
  case (Cons e es)
  show ?case
  proof (cases "is_close e")
    case True
    then obtain i where e: "e = SocketClose i" by (cases e) simp_all
    with Cons.prems have i: "i < length (sockets s)" by simp
    show ?thesis
    proof (cases "reconnectAttempts s < maxReconnectAttempts")
      case True
      with Cons.prems Cons.IH [of "ws_step e s"] e i show ?thesis
        by (simp add: ev_close_below)
    next
      case False
      with Cons.prems Cons.IH [of "ws_step e s"] e i show ?thesis
        by (simp add: ev_close_exhausted)
    qed
  next
    case False
    with Cons.prems Cons.IH [of "ws_step e s"] show ?thesis
      by (simp add: reconnectAttempts_other)
  qed
qed

lemma ev_open_resets: "i < length (sockets s) \<Longrightarrow> reconnectAttempts (ev_open i s) = 0"
  by (simp add: ev_open_def onopen_def Let_def)

text \<open>
  C4. Count the close events since the counter was last zero, with no open event among
  them. The \<open>n\<close>-th of them, for \<open>n\<close> up to 5, schedules one reconnect after
  exactly \<open>1000 * n\<close> milliseconds and leaves the counter at \<open>n\<close>. Every later one
  schedules nothing and calls the error callback once, the counter staying at 5; calls of
  \<open>connect()\<close> in between change none of this. Every open event of a socket sets the
  counter to zero.
\<close>

theorem reconnect_linear_backoff:
  assumes "reconnectAttempts s = 0"
      and "\<forall>e\<in>set es. \<not> is_open e"
      and "wf_trace (es @ [SocketClose i]) s"
      and "n = Suc (length (filter is_close es))"
  shows "(n \<le> 5 \<longrightarrow>
            timeouts (ws_run (es @ [SocketClose i]) s) = timeouts (ws_run es s) @ [1000 * n]
          \<and> reconnectAttempts (ws_run (es @ [SocketClose i]) s) = n
          \<and> signals (ws_run (es @ [SocketClose i]) s) = signals (ws_run es s) @ [OnDisconnect])
       \<and> (5 < n \<longrightarrow>
            timeouts (ws_run (es @ [SocketClose i]) s) = timeouts (ws_run es s)
          \<and> reconnectAttempts (ws_run (es @ [SocketClose i]) s) = 5
          \<and> signals (ws_run (es @ [SocketClose i]) s) =
              signals (ws_run es s)
                @ [OnDisconnect, OnError ''Failed to reconnect after maximum attempts''])
       \<and> (j < length (sockets s') \<longrightarrow> reconnectAttempts (ev_open j s') = 0)"
proof -
  let ?b = "ws_run es s"
  have wf: "wf_trace es s" and i: "i < length (sockets ?b)"
    using assms(3) by (simp_all add: wf_trace_append)
  have r: "reconnectAttempts ?b = min 5 (length (filter is_close es))"
    using reconnectAttempts_run [OF assms(2) wf] assms(1)
    by (simp add: maxReconnectAttempts_def)
  have step: "ws_run (es @ [SocketClose i]) s = ev_close i ?b"
    by (simp add: ws_run_append)
  have low: "n \<le> 5 \<longrightarrow>
            timeouts (ev_close i ?b) = timeouts ?b @ [1000 * n]
          \<and> reconnectAttempts (ev_close i ?b) = n
          \<and> signals (ev_close i ?b) = signals ?b @ [OnDisconnect]"
    using ev_close_below [OF i] r assms(4)
    by (simp add: maxReconnectAttempts_def reconnectDelay_def)
  have high: "5 < n \<longrightarrow>
            timeouts (ev_close i ?b) = timeouts ?b
          \<and> reconnectAttempts (ev_close i ?b) = 5
          \<and> signals (ev_close i ?b) =
              signals ?b @ [OnDisconnect, OnError ''Failed to reconnect after maximum attempts'']"
    using ev_close_exhausted [OF i] r assms(4)
    by (simp add: maxReconnectAttempts_def)
  from low high ev_open_resets [of j s'] show ?thesis
    unfolding step by blast
qed


lemmas ws_eval = openService_def registerHandlers_def newWebSocketService_def onMessage_def
  connect_def ev_open_def ev_close_def ev_error_def ev_timeout_def onopen_def onclose_def
  onerror_def attemptReconnect_def settle_def set_readyState_def disconnect_def socket_close_def
  maxReconnectAttempts_def reconnectDelay_def Let_def

theorem reconnect_linear_backoff_witness:
  "reconnectAttempts openService = 0
   \<and> wf_trace ([SocketClose 0, TimeoutFires 0 False, SocketClose 1, TimeoutFires 0 False]
                @ [SocketClose 2]) openService
   \<and> timeouts (ws_run ([SocketClose 0, TimeoutFires 0 False, SocketClose 1, TimeoutFires 0 False]
                @ [SocketClose 2]) openService) = [3000]
   \<and> reconnectAttempts (ws_run ([SocketClose 0, TimeoutFires 0 False, SocketClose 1,
                TimeoutFires 0 False] @ [SocketClose 2]) openService) = 3
   \<and> reconnectAttempts (ev_open 0 (connect False newWebSocketService)) = 0
   \<and> wf_trace (sixthClose @ [SocketClose 5]) openService
   \<and> timeouts (ws_run (sixthClose @ [SocketClose 5]) openService) = []
   \<and> reconnectAttempts (ws_run (sixthClose @ [SocketClose 5]) openService) = 5
   \<and> signals (ws_run (sixthClose @ [SocketClose 5]) openService) =
       signals (ws_run sixthClose openService)
         @ [OnDisconnect, OnError ''Failed to reconnect after maximum attempts'']"
proof -
  let ?es = "[SocketClose 0, TimeoutFires 0 False, SocketClose 1, TimeoutFires 0 False]"
  have a6: "\<forall>e\<in>set sixthClose. \<not> is_open e"
    by (simp add: sixthClose_def)
  have c6: "wf_trace (sixthClose @ [SocketClose 5]) openService"
    by (simp add: sixthClose_def ws_eval)
  have d6: "(6::nat) = Suc (length (filter is_close sixthClose))"
    by (simp add: sixthClose_def)
  have t6: "timeouts (ws_run sixthClose openService) = []"
    by (simp add: sixthClose_def ws_eval)
  have a: "reconnectAttempts openService = 0"
    by (simp add: ws_eval)
  have b: "\<forall>e\<in>set ?es. \<not> is_open e"
    by simp
  have c: "wf_trace (?es @ [SocketClose 2]) openService"
    by (simp add: ws_eval)
  have d: "(3::nat) = Suc (length (filter is_close ?es))"
    by simp
  have t: "timeouts (ws_run ?es openService) = []"
    by (simp add: ws_eval)
  have j: "0 < length (sockets (connect False newWebSocketService))"
    by (simp add: ws_eval)
  show ?thesis
    using reconnect_linear_backoff [OF a b c d, of 0 "connect False newWebSocketService"]
      reconnect_linear_backoff [OF a a6 c6 d6, of 0 "connect False newWebSocketService"]
      a c t j c6 t6
    by simp
qed

text \<open>
  C6, as stated, fails: \<open>connect()\<close> on a service whose socket is open leaves that
  socket open and only moves \<open>ws\<close> to the new one.
\<close>

theorem connect_keeps_old_socket:
  "ws openService = Some 0
   \<and> readyState (sockets openService ! 0) = OPEN
   \<and> ws (connect False openService) = Some 1
   \<and> readyState (sockets (connect False openService) ! 0) = OPEN"
  by (simp add: ws_eval)

text \<open>
  C6, amended. \<open>connect()\<close> never touches a socket that exists: it appends a new
  connecting socket and makes it the current one. Its promise resolves on the open event
  of that socket and rejects on its error event, or at once when the socket cannot be
  constructed (then no socket is made and \<open>ws\<close> stays).
\<close>

theorem connect_replaces_handle:
  "sockets (connect False s) = sockets s @ [\<lparr>readyState = CONNECTING, resolver = length (promises s)\<rparr>]
   \<and> ws (connect False s) = Some (length (sockets s))
   \<and> promises (connect False s) = promises s @ [Pending]
   \<and> promises (ev_open (length (sockets s)) (connect False s)) = promises s @ [Resolved]
   \<and> promises (ev_error (length (sockets s)) (connect False s)) = promises s @ [Rejected]
   \<and> sockets (connect True s) = sockets s
   \<and> ws (connect True s) = ws s
   \<and> promises (connect True s) = promises s @ [Rejected]"
  by (simp add: connect_def ev_open_def ev_error_def onopen_def onerror_def settle_def
      set_readyState_def Let_def nth_append)

theorem connect_replaces_handle_witness:
  "ws (connect False openService) = Some 1
   \<and> map readyState (sockets (connect False openService)) = [OPEN, CONNECTING]
   \<and> promises (ev_open 1 (connect False openService)) = [Resolved, Resolved]
   \<and> promises (ev_error 1 (connect False openService)) = [Resolved, Rejected]
   \<and> promises (connect True openService) = [Resolved, Rejected]"
proof -
  have s: "sockets openService = [\<lparr>readyState = OPEN, resolver = 0\<rparr>]"
    and p: "promises openService = [Resolved]"
    by (simp_all add: ws_eval)
  show ?thesis
    using connect_replaces_handle [of openService] s p by simp
qed

text \<open>
  C9. \<open>disconnect()\<close> leaves the handlers of the socket in place: the close event
  that follows runs \<open>attemptReconnect\<close>, and with the counter below the maximum it
  schedules a timeout whose firing opens a new socket and makes it current. The same
  holds of the close event of any socket.
\<close>

theorem disconnect_then_close_reconnects:
  assumes "ws s = Some i" and "i < length (sockets s)"
  shows "ev_close i (disconnect s) =
           attemptReconnect
             ((disconnect s)\<lparr>sockets := set_readyState i CLOSED (sockets (disconnect s)),
                             signals := signals s @ [OnDisconnect]\<rparr>)
       \<and> (reconnectAttempts s < maxReconnectAttempts \<longrightarrow>
            timeouts (ev_close i (disconnect s))
              = timeouts s @ [reconnectDelay * (reconnectAttempts s + 1)]
          \<and> ws (ev_timeout (length (timeouts s)) False (ev_close i (disconnect s)))
              = Some (length (sockets s)))
       \<and> (j < length (sockets s') \<and> reconnectAttempts s' < maxReconnectAttempts \<longrightarrow>
            timeouts (ev_close j s') = timeouts s' @ [reconnectDelay * (reconnectAttempts s' + 1)])"
proof -
  have len: "length (sockets (disconnect s)) = length (sockets s)"
    using assms by (simp add: disconnect_def socket_close_def set_readyState_def Let_def)
  have fields: "reconnectAttempts (disconnect s) = reconnectAttempts s"
    "timeouts (disconnect s) = timeouts s" "signals (disconnect s) = signals s"
    using assms by (simp_all add: disconnect_def Let_def)
  have i: "i < length (sockets (disconnect s))"
    using assms len by simp
  have a: "ev_close i (disconnect s) =
           attemptReconnect
             ((disconnect s)\<lparr>sockets := set_readyState i CLOSED (sockets (disconnect s)),
                             signals := signals s @ [OnDisconnect]\<rparr>)"
    using i by (simp add: ev_close_def onclose_def fields)
  have b: "reconnectAttempts s < maxReconnectAttempts \<longrightarrow>
            timeouts (ev_close i (disconnect s))
              = timeouts s @ [reconnectDelay * (reconnectAttempts s + 1)]
          \<and> ws (ev_timeout (length (timeouts s)) False (ev_close i (disconnect s)))
              = Some (length (sockets s))"
    using i len
    by (simp add: ev_close_def onclose_def attemptReconnect_below fields ev_timeout_def
        connect_def set_readyState_def Let_def)
  have c: "j < length (sockets s') \<and> reconnectAttempts s' < maxReconnectAttempts \<longrightarrow>
            timeouts (ev_close j s') = timeouts s' @ [reconnectDelay * (reconnectAttempts s' + 1)]"
    by (simp add: ev_close_below)
  from a b c show ?thesis by blast
qed

theorem disconnect_then_close_reconnects_witness:
  "ws openService = Some 0 \<and> 0 < length (sockets openService)
   \<and> reconnectAttempts openService < maxReconnectAttempts
   \<and> timeouts (ev_close 0 (disconnect openService)) = [1000]
   \<and> ws (ev_timeout 0 False (ev_close 0 (disconnect openService))) = Some 1"
proof -
  have a: "ws openService = Some 0" and b: "0 < length (sockets openService)"
    and c: "reconnectAttempts openService < maxReconnectAttempts"
    and t: "timeouts openService = []" and r: "reconnectAttempts openService = 0"
    and l: "length (sockets openService) = 1"
    by (simp_all add: ws_eval)
  from disconnect_then_close_reconnects [OF a b, of 0 openService] c
  have "timeouts (ev_close 0 (disconnect openService))
          = timeouts openService @ [reconnectDelay * (reconnectAttempts openService + 1)]
      \<and> ws (ev_timeout (length (timeouts openService)) False (ev_close 0 (disconnect openService)))
          = Some (length (sockets openService))"
    by blast
  with a b c t r l show ?thesis
    by (simp add: reconnectDelay_def)
qed

subsection \<open>The orchestrator\<close>

lemmas store_defs = setCurrentSession_def addFrame_def clearFrameHistory_def setSessionStats_def
  setTemporalContext_def setConnectionStatus_def setProcessingStatus_def setStreamingStatus_def
  setError_def

lemma store_rerender [simp]: "store (rerender b a) = store a"
  by (simp add: rerender_def streaming_effect_def effect_cleanup_def split: option.splits)

lemma wsRef_rerender [simp]: "wsRef (rerender b a) = wsRef a"
  by (simp add: rerender_def streaming_effect_def effect_cleanup_def split: option.splits)

lemma queries_sent_rerender [simp]: "queries_sent (rerender b a) = queries_sent a"
  by (simp add: queries_sent_def)

lemma intervalRef_app_handle [simp]: "intervalRef (app_handle e a) = intervalRef a"
  by (cases e)
     (simp_all add: pacer_tick_def app_onmessage_def handleStartAnalysis_def
        handleStopAnalysis_def handleClearHistory_def Let_def
        split: option.splits sum.splits capture_result.splits prod.splits)

lemma pacer_armed_clear_effect: "pacer_armed_clear (streaming_effect (effect_cleanup a))"
  by (simp add: pacer_armed_clear_def streaming_effect_def effect_cleanup_def split: option.splits)

lemma pacer_armed_clear_step: "pacer_armed_clear a \<Longrightarrow> pacer_armed_clear (app_step e a)"
proof -
  assume inv: "pacer_armed_clear a"
  show ?thesis
  proof (cases "effect_deps (store a) = effect_deps (store (app_handle e a))")
    case True
    then have "isProcessing (store (app_handle e a)) = isProcessing (store a)"
      by (simp add: effect_deps_def)
    with inv True show ?thesis
      by (simp add: app_step_def rerender_def pacer_armed_clear_def)
  next
    case False
    then show ?thesis
      by (simp add: app_step_def rerender_def pacer_armed_clear_effect)
  qed
qed

lemma store_app_step [simp]: "store (app_step e a) = store (app_handle e a)"
  by (simp add: app_step_def)

lemma wsRef_app_step [simp]: "wsRef (app_step e a) = wsRef (app_handle e a)"
  by (simp add: app_step_def)

lemma queries_sent_app_step [simp]: "queries_sent (app_step e a) = queries_sent (app_handle e a)"
  by (simp add: app_step_def)

lemma queries_sent_message [simp]: "queries_sent (app_onmessage payload now a) = queries_sent a"
  by (simp add: app_onmessage_def queries_sent_def split: option.splits prod.splits)

lemma transmitted_send:
  "transmitted (send m s) = transmitted s \<or> (\<exists>i. transmitted (send m s) = transmitted s @ [(i, m)])"
  by (simp add: send_def split: option.splits)

lemma tick_cases:
  "pacer_tick env now a = a
   \<or> (\<exists>c svc fd. intervalRef a = Some c \<and> wsRef a = Some svc
        \<and> pacer_tick env now a =
            a\<lparr>store := setProcessingStatus True (store a),
              wsRef := Some (ws_queryVLM (query_params c fd now) svc)\<rparr>)"
  by (auto simp: pacer_tick_def Let_def split: option.splits sum.splits capture_result.splits)

lemma queries_sent_queryVLM:
  "wsRef a = Some svc \<Longrightarrow>
     queries_sent (a\<lparr>store := st, wsRef := Some (ws_queryVLM p svc)\<rparr>) = queries_sent a
   \<or> queries_sent (a\<lparr>store := st, wsRef := Some (ws_queryVLM p svc)\<rparr>) = Suc (queries_sent a)"
  using transmitted_send [of "vlm_query p" svc]
  by (auto simp: queries_sent_def ws_queryVLM_def)

lemma tick_sends:
  assumes "pacer_armed_clear a"
  shows "queries_sent (pacer_tick env now a) = queries_sent a
       \<or> (\<not> isProcessing (store a) \<and> isProcessing (store (pacer_tick env now a))
            \<and> queries_sent (pacer_tick env now a) = Suc (queries_sent a))"
proof -
  from tick_cases [of env now a] show ?thesis
  proof
    assume "pacer_tick env now a = a"
    then show ?thesis by simp
  next
    assume "\<exists>c svc fd. intervalRef a = Some c \<and> wsRef a = Some svc
        \<and> pacer_tick env now a =
            a\<lparr>store := setProcessingStatus True (store a),
              wsRef := Some (ws_queryVLM (query_params c fd now) svc)\<rparr>"
    then obtain c svc fd where c: "intervalRef a = Some c" and w: "wsRef a = Some svc"
      and t: "pacer_tick env now a =
            a\<lparr>store := setProcessingStatus True (store a),
              wsRef := Some (ws_queryVLM (query_params c fd now) svc)\<rparr>"
      by blast
    from assms c have np: "\<not> isProcessing (store a)"
      by (simp add: pacer_armed_clear_def)
    from queries_sent_queryVLM
      [OF w, where st = "setProcessingStatus True (store a)" and p = "query_params c fd now"]
      np t show ?thesis
      by (auto simp: setProcessingStatus_def)
  qed
qed

lemma tick_flag: "isProcessing (store a) \<Longrightarrow> isProcessing (store (pacer_tick env now a))"
  using tick_cases [of env now a] by (auto simp: setProcessingStatus_def)

lemma pacer_armed_clear_run: "pacer_armed_clear a \<Longrightarrow> pacer_armed_clear (app_run es a)"
  by (induction es arbitrary: a) (simp_all add: pacer_armed_clear_step)

lemma messageHandlers_send [simp]: "messageHandlers (send m s) = messageHandlers s"
  by (simp add: send_def split: option.splits)

lemma registered_vlm_response:
  "(messageHandlers (registerHandlers newWebSocketService) t = Some H_vlm_response)
     = (t = ''vlm_response'')"
  by (simp add: registerHandlers_def onMessage_def newWebSocketService_def)

lemma handlers_as_registered_handle:
  "handlers_as_registered a \<Longrightarrow> handlers_as_registered (app_handle e a)"
  by (cases e)
     (auto simp: handlers_as_registered_def pacer_tick_def app_onmessage_def
        handleStartAnalysis_def handleStopAnalysis_def handleClearHistory_def
        ws_queryVLM_def ws_startSession_def Let_def
        split: option.splits sum.splits capture_result.splits prod.splits)

lemma handlers_as_registered_step:
  "handlers_as_registered a \<Longrightarrow> handlers_as_registered (app_step e a)"
  using handlers_as_registered_handle [of a e]
  by (simp add: handlers_as_registered_def)

lemma handlers_as_registered_run:
  "handlers_as_registered a \<Longrightarrow> handlers_as_registered (app_run es a)"
  by (induction es arbitrary: a) (simp_all add: handlers_as_registered_step)

lemma is_vlm_query_start [simp]: "\<not> is_vlm_query (i, start_session sid)"
  by simp

lemma queries_sent_other: "\<not> is_tick e \<Longrightarrow> queries_sent (app_handle e a) = queries_sent a"
proof (cases e)
  case (Message payload now)
  then show ?thesis by simp
qed (auto simp: queries_sent_def handleStartAnalysis_def handleStopAnalysis_def
       handleClearHistory_def ws_startSession_def send_def Let_def
       split: option.splits)

lemma flag_other:
  "\<not> is_tick e \<Longrightarrow> \<not> is_stop e \<Longrightarrow> \<not> is_vlm_response e \<Longrightarrow> handlers_as_registered a \<Longrightarrow>
     isProcessing (store (app_handle e a)) = isProcessing (store a)"
proof (cases e)
  case (Message payload now)
  assume nr: "\<not> is_vlm_response e" and reg: "handlers_as_registered a"
  show ?thesis
  proof (cases "onmessage payload (the (wsRef a))")
    case None
    with Message show ?thesis
      by (auto simp: app_onmessage_def split: option.splits)
  next
    case (Some hm)
    obtain h m where hm: "hm = (h, m)" by (cases hm)
    show ?thesis
    proof (cases "wsRef a")
      case None
      with Message show ?thesis by (simp add: app_onmessage_def)
    next
      case (Some svc)
      with \<open>onmessage payload (the (wsRef a)) = Some hm\<close> hm
      have disp: "payload = Some m" "messageHandlers svc (msg_type m) = Some h"
        by (auto simp: onmessage_def handleMessage_def split: option.splits)
      from nr Message disp have "msg_type m \<noteq> ''vlm_response''" by simp
      with reg Some disp registered_vlm_response [of "msg_type m"]
      have "h \<noteq> H_vlm_response"
        by (auto simp: handlers_as_registered_def)
      with Message Some disp show ?thesis
        by (cases h)
           (simp_all add: app_onmessage_def onmessage_def handleMessage_def
              on_session_started_def on_session_stats_def on_session_error_def store_defs)
    qed
  qed
qed (simp_all add: handleStartAnalysis_def handleClearHistory_def store_defs Let_def
       split: option.splits)

lemma outstanding_bound:
  "pacer_armed_clear a \<Longrightarrow> handlers_as_registered a \<Longrightarrow>
     k \<le> c + (if isProcessing (store a) then 1 else 0) \<Longrightarrow>
     outstanding k es a \<le> c + length (filter is_stop es) + 1"
proof (induction es arbitrary: k c a)
  case Nil
  then show ?case by (simp split: if_splits)
next
  case (Cons e es)
  have inv': "pacer_armed_clear (app_step e a)"
    using Cons.prems(1) by (rule pacer_armed_clear_step)
  have reg': "handlers_as_registered (app_step e a)"
    using Cons.prems(2) by (rule handlers_as_registered_step)
  let ?k = "(if is_vlm_response e then k - 1 else k)
              + (queries_sent (app_step e a) - queries_sent a)"
  let ?c = "c + (if is_stop e then 1 else 0)"
  have k': "?k \<le> ?c + (if isProcessing (store (app_step e a)) then 1 else 0)"
  proof (cases "is_tick e")
    case True
    then obtain env now where e: "e = Tick env now" by (cases e) simp_all
    from tick_sends [OF Cons.prems(1), of env now] tick_flag [of a env now] Cons.prems(3) e
    show ?thesis
      by (auto split: if_splits)
  next
    case nt: False
    then have q: "queries_sent (app_step e a) = queries_sent a"
      by (simp add: queries_sent_other)
    show ?thesis
    proof (cases "is_stop e")
      case True
      then have "\<not> is_vlm_response e" by (cases e) simp_all
      with True q Cons.prems(3) show ?thesis
        by (simp split: if_splits)
    next
      case ns: False
      show ?thesis
      proof (cases "is_vlm_response e")
        case True
        have "k - 1 \<le> c"
          using Cons.prems(3) by (simp split: if_splits)
        with True ns q show ?thesis by simp
      next
        case False
        with nt ns Cons.prems(2)
        have "isProcessing (store (app_step e a)) = isProcessing (store a)"
          by (simp add: flag_other)
        with False ns q Cons.prems(3) show ?thesis by simp
      qed
    qed
  qed
  from Cons.IH [OF inv' reg' k']
  have "outstanding ?k es (app_step e a) \<le> ?c + length (filter is_stop es) + 1" .
  then show ?case
    by (cases "is_stop e"; cases "is_vlm_response e") simp_all
qed

lemmas app_eval = streamingApp_def openService_def registerHandlers_def newWebSocketService_def
  onMessage_def connect_def ev_open_def onopen_def settle_def set_readyState_def
  initialState_def goodCamera_def responseOk_def responseFailed_def tc1_def
  app_step_def rerender_def effect_deps_def streaming_effect_def effect_cleanup_def
  pacer_tick_def app_onmessage_def onmessage_def handleMessage_def
  on_vlm_response_def error_or_default_def
  handleStartAnalysis_def handleStopAnalysis_def handleClearHistory_def
  captureFrame_def try_catch_def bind_err_def index_str_def
  ws_queryVLM_def ws_startSession_def send_def query_params_def session_or_undefined_def
  queries_sent_def pacer_armed_clear_def store_defs slice_last_def Let_def

text \<open>
  C1, as stated, fails: the stop command clears the processing flag with the query of the
  first tick still unanswered, and after a restart the next tick sends a second query.
  Two queries are then outstanding, also when counted from the state the restart leaves
  (one outstanding, flag clear), where a single tick makes them two.
\<close>

theorem stop_then_second_query:
  "pacer_armed_clear streamingApp
   \<and> isProcessing (store (app_run [Tick goodCamera ''t1''] streamingApp))
   \<and> \<not> isProcessing (store (app_run [Tick goodCamera ''t1'', StopAnalysis] streamingApp))
   \<and> outstanding 0 [Tick goodCamera ''t1'', StopAnalysis, StartAnalysis,
        Tick goodCamera ''t2''] streamingApp = 2
   \<and> outstanding 1 [Tick goodCamera ''t2'']
        (app_run [Tick goodCamera ''t1'', StopAnalysis, StartAnalysis] streamingApp) = 2"
  by (simp add: app_eval)

text \<open>
  C1, amended. Take any trace of ticks, messages and the start, stop and clear commands,
  from a state with the registered handlers in which an armed interval means a clear flag
  (both hold at mount and after every event). At every instant, a step puts a query on
  the wire only if it is a tick and the flag was clear before it, it puts exactly one, and
  the flag is set when the step ends (the callback sets it and then sends); and the flag
  goes from set to clear only in a step that is the arrival of a \<open>vlm_response\<close> or
  the stop command. So the queries outstanding never exceed one more than the stop
  commands issued, on top of what was outstanding beyond the flag at the start: at most
  one at any instant of a session in which stop is not used. The component renders, and
  runs the streaming effect, between any two events, as it does between two callbacks of
  the event loop; it is this that disarms the interval once the flag is set, since the
  callback itself only reads the flag of its closure.
\<close>

theorem one_query_per_flag:
  assumes "pacer_armed_clear a"
      and "handlers_as_registered a"
      and "k \<le> c + (if isProcessing (store a) then 1 else 0)"
  shows "outstanding k es a \<le> c + length (filter is_stop es) + 1
       \<and> (queries_sent (app_step e (app_run es a)) \<noteq> queries_sent (app_run es a) \<longrightarrow>
            is_tick e
          \<and> \<not> isProcessing (store (app_run es a))
          \<and> isProcessing (store (app_step e (app_run es a)))
          \<and> queries_sent (app_step e (app_run es a)) = Suc (queries_sent (app_run es a)))
       \<and> (isProcessing (store (app_run es a))
            \<and> \<not> isProcessing (store (app_step e (app_run es a)))
              \<longrightarrow> is_vlm_response e \<or> is_stop e)"
proof -
  let ?b = "app_run es a"
  have inv: "pacer_armed_clear ?b"
    using assms(1) by (rule pacer_armed_clear_run)
  have reg: "handlers_as_registered ?b"
    using assms(2) by (rule handlers_as_registered_run)
  have bound: "outstanding k es a \<le> c + length (filter is_stop es) + 1"
    using assms by (rule outstanding_bound)
  have snd: "queries_sent (app_step e ?b) \<noteq> queries_sent ?b \<longrightarrow>
            is_tick e
          \<and> \<not> isProcessing (store ?b)
          \<and> isProcessing (store (app_step e ?b))
          \<and> queries_sent (app_step e ?b) = Suc (queries_sent ?b)"
  proof (cases "is_tick e")
    case True
    then obtain env now where "e = Tick env now" by (cases e) simp_all
    with tick_sends [OF inv, of env now] show ?thesis by auto
  next
    case False
    then show ?thesis by (simp add: queries_sent_other)
  qed
  have clr: "isProcessing (store ?b) \<and> \<not> isProcessing (store (app_step e ?b))
      \<longrightarrow> is_vlm_response e \<or> is_stop e"
  proof (cases "is_tick e")
    case True
    then obtain env now where "e = Tick env now" by (cases e) simp_all
    with tick_flag [of ?b env now] show ?thesis by auto
  next
    case False
    with flag_other [of e ?b] reg show ?thesis by auto
  qed
  from bound snd clr show ?thesis by blast
qed

theorem one_query_per_flag_witness:
  "pacer_armed_clear streamingApp \<and> handlers_as_registered streamingApp
   \<and> outstanding 0 [Tick goodCamera ''t1'', Tick goodCamera ''t2''] streamingApp = 1
   \<and> queries_sent (app_run [Tick goodCamera ''t1'', Tick goodCamera ''t2''] streamingApp) = 1
   \<and> isProcessing (store (app_run [Tick goodCamera ''t1'', Tick goodCamera ''t2''] streamingApp))
   \<and> \<not> isProcessing (store (app_step (Message (Some responseOk) ''t3'')
          (app_run [Tick goodCamera ''t1'', Tick goodCamera ''t2''] streamingApp)))
   \<and> \<not> isProcessing (store (app_step StopAnalysis
          (app_run [Tick goodCamera ''t1'', Tick goodCamera ''t2''] streamingApp)))
   \<and> queries_sent (app_step (Tick goodCamera ''t4'')
          (app_run [Tick goodCamera ''t1'', Message (Some responseOk) ''t3''] streamingApp)) = 2
   \<and> outstanding 0 [Tick goodCamera ''t1'', Message (Some responseOk) ''t3'',
          Tick goodCamera ''t4''] streamingApp = 1"
proof -
  let ?es = "[Tick goodCamera ''t1'', Tick goodCamera ''t2'']"
  have a: "pacer_armed_clear streamingApp"
    by (simp add: pacer_armed_clear_def streamingApp_def initialState_def)
  have b: "handlers_as_registered streamingApp"
    by (simp add: handlers_as_registered_def streamingApp_def openService_def
        registerHandlers_def onMessage_def newWebSocketService_def connect_def ev_open_def
        onopen_def set_readyState_def Let_def)
  have d: "(0::nat) \<le> 0 + (if isProcessing (store streamingApp) then 1 else 0)"
    by simp
  have s1: "app_step (Tick goodCamera ''t1'') streamingApp =
      streamingApp\<lparr>store := (store streamingApp)\<lparr>isProcessing := True\<rparr>,
         wsRef := Some (openService\<lparr>transmitted :=
           [(0, vlm_query (query_params \<lparr>c_isProcessing = False, c_settings = defaultSettings,
                c_currentSession = Some ''s1''\<rparr> ''QUJD'' ''t1''))]\<rparr>),
         intervalRef := None\<rparr>"
    by (simp add: app_eval)
  show ?thesis
    using one_query_per_flag [OF a b d, of ?es "Message (Some responseOk) ''t3''"]
      one_query_per_flag [OF a b d, of ?es StopAnalysis] a b
    apply (simp add: s1)
    apply (simp add: app_eval)
    done
qed




text \<open>
  C5, as stated, fails: the clear command leaves a streaming component streaming, its
  interval armed, and the next tick sends a query.
\<close>

theorem clear_leaves_pacer_armed:
  "isStreaming (store streamingApp) \<and> intervalRef streamingApp \<noteq> None
   \<and> isStreaming (store (app_step ClearHistory streamingApp))
   \<and> intervalRef (app_step ClearHistory streamingApp) = intervalRef streamingApp
   \<and> queries_sent (app_step ClearHistory streamingApp) = 0
   \<and> queries_sent (app_step (Tick goodCamera ''t1'') (app_step ClearHistory streamingApp)) = 1"
  by (simp add: app_eval)

lemma wsRef_tick_cong:
  "intervalRef a = intervalRef b \<Longrightarrow> wsRef a = wsRef b \<Longrightarrow>
     wsRef (pacer_tick env now a) = wsRef (pacer_tick env now b)"
  by (auto simp: pacer_tick_def Let_def split: option.splits sum.splits capture_result.splits)

text \<open>
  C5, amended. The clear command empties the history and sets temporal context and
  session statistics to null. It leaves the session id, the connection state, the
  service, the streaming and processing flags and the interval unchanged, so what the
  next tick sends (session id included) is what it would have sent without the clear.
\<close>

theorem clear_history_frame:
  "frameHistory (store (app_step ClearHistory a)) = []
   \<and> temporalContext (store (app_step ClearHistory a)) = None
   \<and> sessionStats (store (app_step ClearHistory a)) = None
   \<and> currentSession (store (app_step ClearHistory a)) = currentSession (store a)
   \<and> isConnected (store (app_step ClearHistory a)) = isConnected (store a)
   \<and> wsRef (app_step ClearHistory a) = wsRef a
   \<and> isStreaming (store (app_step ClearHistory a)) = isStreaming (store a)
   \<and> isProcessing (store (app_step ClearHistory a)) = isProcessing (store a)
   \<and> intervalRef (app_step ClearHistory a) = intervalRef a
   \<and> wsRef (app_step (Tick env now) (app_step ClearHistory a)) = wsRef (app_step (Tick env now) a)"
proof -
  have f: "frameHistory (store (app_step ClearHistory a)) = []
   \<and> temporalContext (store (app_step ClearHistory a)) = None
   \<and> sessionStats (store (app_step ClearHistory a)) = None
   \<and> currentSession (store (app_step ClearHistory a)) = currentSession (store a)
   \<and> isConnected (store (app_step ClearHistory a)) = isConnected (store a)
   \<and> wsRef (app_step ClearHistory a) = wsRef a
   \<and> isStreaming (store (app_step ClearHistory a)) = isStreaming (store a)
   \<and> isProcessing (store (app_step ClearHistory a)) = isProcessing (store a)
   \<and> intervalRef (app_step ClearHistory a) = intervalRef a"
    by (simp add: app_step_def rerender_def effect_deps_def handleClearHistory_def store_defs
        Let_def)
  then have "wsRef (pacer_tick env now (app_step ClearHistory a)) = wsRef (pacer_tick env now a)"
    by (intro wsRef_tick_cong) simp_all
  then have "wsRef (app_step (Tick env now) (app_step ClearHistory a))
      = wsRef (app_step (Tick env now) a)"
    by (simp add: app_step_def)
  with f show ?thesis by blast
qed

theorem clear_history_frame_witness:
  "frameHistory (store (app_step ClearHistory
       (app_step (Message (Some responseOk) ''t1'') streamingApp))) = []
   \<and> temporalContext (store (app_step (Message (Some responseOk) ''t1'') streamingApp)) = Some tc1
   \<and> temporalContext (store (app_step ClearHistory
       (app_step (Message (Some responseOk) ''t1'') streamingApp))) = None
   \<and> currentSession (store (app_step ClearHistory
       (app_step (Message (Some responseOk) ''t1'') streamingApp))) = Some ''s1''
   \<and> isConnected (store (app_step ClearHistory
       (app_step (Message (Some responseOk) ''t1'') streamingApp)))"
proof -
  have s: "currentSession (store (app_step (Message (Some responseOk) ''t1'') streamingApp)) = Some ''s1''"
    "isConnected (store (app_step (Message (Some responseOk) ''t1'') streamingApp))"
    "temporalContext (store (app_step (Message (Some responseOk) ''t1'') streamingApp)) = Some tc1"
    by (simp_all add: app_eval)
  show ?thesis
    using clear_history_frame [of "app_step (Message (Some responseOk) ''t1'') streamingApp"] s
    by simp
qed

text \<open>
  C8. Stopping twice is stopping once: from every state of the component, two
  consecutive stop commands leave the state (store, service, interval) that one leaves.
\<close>

theorem stop_idempotent:
  "app_step StopAnalysis (app_step StopAnalysis a) = app_step StopAnalysis a"
  by (cases "intervalRef a")
     (auto simp: app_step_def rerender_def handleStopAnalysis_def effect_deps_def
        streaming_effect_def effect_cleanup_def store_defs Let_def)

theorem stop_idempotent_witness:
  "app_step StopAnalysis (app_step StopAnalysis streamingApp) = app_step StopAnalysis streamingApp
   \<and> \<not> isStreaming (store (app_step StopAnalysis streamingApp))
   \<and> intervalRef (app_step StopAnalysis streamingApp) = None"
  using stop_idempotent [of streamingApp]
  by (simp add: app_eval)

end
